theory Spec2Isabelle
  imports Main "HOL-Library.Multiset"
begin

section \<open>Data model\<close>

text \<open>
  The program handles CSV data as Python lists of lists of \<open>str\<close>. A row is a list of
  cells, a table is a list of rows whose first row, when there is one, is the header.
  Cells are carried as \<open>string\<close>; text beyond ASCII stands as its UTF-8 bytes, which keeps
  string equality and \<open>str.endswith\<close> with an ASCII suffix as they are in Python.
\<close>

type_synonym row = "string list"
type_synonym table = "row list"

text \<open>
  Every \<open>raise\<close> of \<open>main.py\<close> and every exception its statements can throw is a value.
  \<open>MissingColumn\<close>, \<open>InvalidValue\<close>, \<open>UnknownReport\<close> and \<open>InvalidFormat\<close> are the
  \<open>ValueError\<close>s of the program, told apart by their message: the missing column of
  \<open>list.index\<close>, the cell \<open>float\<close> rejects, the report name \<open>generate\<close> does not find
  and the path \<open>CSVReader.read\<close> refuses. \<open>NotFound\<close> is \<open>FileNotFoundError\<close>;
  \<open>ReadError\<close> is any other exception of \<open>open\<close>, decoding or \<open>csv.reader\<close>.
\<close>

datatype error =
    IndexError
  | ZeroDivisionError
  | TypeError
  | MissingColumn string
  | InvalidValue string
  | UnknownReport string
  | InvalidFormat string
  | NotFound string
  | ReadError

section \<open>Python floats\<close>

text \<open>
  A Python \<open>float\<close> is an IEEE 754 binary64 number. \<open>Finite s m e\<close> is the number
  \<open>(-1)\<^sup>s * m * 2\<^sup>e\<close> in the canonical form of the format: \<open>m < 2\<^sup>5\<^sup>3\<close>,
  \<open>-1074 \<le> e \<le> 971\<close>, and \<open>2\<^sup>5\<^sup>2 \<le> m\<close> unless \<open>e = -1074\<close> (zero and the subnormal
  numbers). \<open>Infinity s\<close> is the infinity of sign \<open>s\<close>. The sign is \<open>True\<close> for minus.
\<close>

datatype pyfloat = Finite bool nat int | Infinity bool | NaN

definition float_zero :: "bool \<Rightarrow> pyfloat" where
  "float_zero s = Finite s 0 (- 1074)"

fun bit_length :: "nat \<Rightarrow> nat" where
  "bit_length n = (if n = 0 then 0 else bit_length (n div 2) + 1)"

declare bit_length.simps [simp del]

text \<open>\<open>floor_log2 a b\<close> is the integer part of the binary logarithm of \<open>a / b\<close>, for
  positive \<open>a\<close> and \<open>b\<close>: the difference \<open>t\<close> of the bit lengths, or one less.\<close>

definition floor_log2_near :: "nat \<Rightarrow> nat \<Rightarrow> int \<Rightarrow> int" where
  "floor_log2_near a b t = (if b * 2 ^ nat t \<le> a * 2 ^ nat (- t) then t else t - 1)"

definition floor_log2 :: "nat \<Rightarrow> nat \<Rightarrow> int" where
  "floor_log2 a b = floor_log2_near a b (int (bit_length a) - int (bit_length b))"

text \<open>A quotient \<open>q\<close> with remainder \<open>r\<close> of a division by \<open>d\<close>, rounded to the nearest
  integer, a tie to the even one.\<close>

definition round_half_even :: "nat \<Rightarrow> nat \<Rightarrow> nat \<Rightarrow> nat" where
  "round_half_even q r d =
     (if 2 * r < d then q else if d < 2 * r then q + 1 else if even q then q else q + 1)"

definition div_half_even :: "nat \<Rightarrow> nat \<Rightarrow> nat" where
  "div_half_even n d = round_half_even (n div d) (n mod d) d"

text \<open>
  Rounding to nearest, ties to even, of the exact value \<open>a / b\<close> with sign \<open>s\<close>: the
  rounding of every binary64 operation. The exponent is that of the value, not below the
  subnormal one; a mantissa that rounds up to \<open>2\<^sup>5\<^sup>3\<close> moves to the next exponent; a
  result beyond the largest exponent is infinite.
\<close>

definition pack :: "bool \<Rightarrow> nat \<Rightarrow> int \<Rightarrow> pyfloat" where
  "pack s m e =
     (if m = 2 ^ 53 then (if 971 < e + 1 then Infinity s else Finite s (2 ^ 52) (e + 1))
      else if 971 < e then Infinity s else Finite s m e)"

definition round_at :: "bool \<Rightarrow> nat \<Rightarrow> nat \<Rightarrow> int \<Rightarrow> pyfloat" where
  "round_at s a b e = pack s (div_half_even (a * 2 ^ nat (- e)) (b * 2 ^ nat e)) e"

definition round_ratio :: "bool \<Rightarrow> nat \<Rightarrow> nat \<Rightarrow> pyfloat" where
  "round_ratio s a b =
     (if a = 0 then float_zero s else round_at s a b (max (floor_log2 a b - 52) (- 1074)))"

text \<open>The value of a finite float as an integer multiple of \<open>2\<^sup>k\<close>, for \<open>k\<close> not above
  its exponent.\<close>

definition scaled :: "int \<Rightarrow> bool \<Rightarrow> nat \<Rightarrow> int \<Rightarrow> int" where
  "scaled k s m e = (if s then - 1 else 1) * int m * 2 ^ nat (e - k)"

fun float_lt :: "pyfloat \<Rightarrow> pyfloat \<Rightarrow> bool" where
  "float_lt NaN y = False"
| "float_lt x NaN = False"
| "float_lt (Infinity s) (Infinity t) = (s \<and> \<not> t)"
| "float_lt (Infinity s) (Finite t n f) = s"
| "float_lt (Finite s m e) (Infinity t) = (\<not> t)"
| "float_lt (Finite s m e) (Finite t n f) = (scaled (min e f) s m e < scaled (min e f) t n f)"

fun float_eq :: "pyfloat \<Rightarrow> pyfloat \<Rightarrow> bool" where
  "float_eq NaN y = False"
| "float_eq x NaN = False"
| "float_eq (Infinity s) (Infinity t) = (s = t)"
| "float_eq (Infinity s) (Finite t n f) = False"
| "float_eq (Finite s m e) (Infinity t) = False"
| "float_eq (Finite s m e) (Finite t n f) = (scaled (min e f) s m e = scaled (min e f) t n f)"

definition float_le :: "pyfloat \<Rightarrow> pyfloat \<Rightarrow> bool" where
  "float_le x y = (float_lt x y \<or> float_eq x y)"

fun float_neg :: "pyfloat \<Rightarrow> pyfloat" where
  "float_neg (Finite s m e) = Finite (\<not> s) m e"
| "float_neg (Infinity s) = Infinity (\<not> s)"
| "float_neg NaN = NaN"

fun float_abs :: "pyfloat \<Rightarrow> pyfloat" where
  "float_abs (Finite s m e) = Finite False m e"
| "float_abs (Infinity s) = Infinity False"
| "float_abs NaN = NaN"

fun is_finite :: "pyfloat \<Rightarrow> bool" where
  "is_finite (Finite s m e) = True"
| "is_finite (Infinity s) = False"
| "is_finite NaN = False"

fun is_zero :: "pyfloat \<Rightarrow> bool" where
  "is_zero (Finite s m e) = (m = 0)"
| "is_zero (Infinity s) = False"
| "is_zero NaN = False"

text \<open>
  Addition. The sum of two zeros is \<open>-0.0\<close> only when both are negative; a zero added to
  another number leaves it as it is; otherwise the exact sum \<open>v * 2\<^sup>k\<close> is rounded, an
  exact zero being positive.
\<close>

definition round_sum :: "int \<Rightarrow> int \<Rightarrow> pyfloat" where
  "round_sum k v =
     (if v = 0 then float_zero False
      else round_ratio (v < 0) (nat \<bar>v\<bar> * 2 ^ nat k) (2 ^ nat (- k)))"

fun float_add :: "pyfloat \<Rightarrow> pyfloat \<Rightarrow> pyfloat" where
  "float_add NaN y = NaN"
| "float_add x NaN = NaN"
| "float_add (Infinity s) (Infinity t) = (if s = t then Infinity s else NaN)"
| "float_add (Infinity s) (Finite t n f) = Infinity s"
| "float_add (Finite s m e) (Infinity t) = Infinity t"
| "float_add (Finite s m e) (Finite t n f) =
     (if m = 0 \<and> n = 0 then float_zero (s \<and> t)
      else if m = 0 then Finite t n f
      else if n = 0 then Finite s m e
      else round_sum (min e f) (scaled (min e f) s m e + scaled (min e f) t n f))"

definition float_sub :: "pyfloat \<Rightarrow> pyfloat \<Rightarrow> pyfloat" where
  "float_sub x y = float_add x (float_neg y)"

text \<open>Division \<open>x / y\<close> of two floats: Python raises \<open>ZeroDivisionError\<close> when the divisor
  is zero, whatever the dividend.\<close>

fun float_div :: "pyfloat \<Rightarrow> pyfloat \<Rightarrow> error + pyfloat" where
  "float_div (Finite s m e) (Finite t n f) =
     (if n = 0 then Inl ZeroDivisionError
      else Inr (round_ratio (s \<noteq> t) (m * 2 ^ nat (e - f)) (n * 2 ^ nat (f - e))))"
| "float_div (Infinity s) (Finite t n f) =
     (if n = 0 then Inl ZeroDivisionError else Inr (Infinity (s \<noteq> t)))"
| "float_div NaN (Finite t n f) = (if n = 0 then Inl ZeroDivisionError else Inr NaN)"
| "float_div (Finite s m e) (Infinity t) = Inr (float_zero (s \<noteq> t))"
| "float_div (Infinity s) (Infinity t) = Inr NaN"
| "float_div NaN (Infinity t) = Inr NaN"
| "float_div x NaN = Inr NaN"

text \<open>The conversion of a Python \<open>int\<close> that is a list length.\<close>

definition float_of_nat :: "nat \<Rightarrow> pyfloat" where
  "float_of_nat n = round_ratio False n 1"

subsection \<open>Decimal text\<close>

definition digit_char :: "nat \<Rightarrow> char" where
  "digit_char d = ''0123456789'' ! d"

text \<open>\<open>str(n)\<close> for a natural number.\<close>

fun str_nat :: "nat \<Rightarrow> string" where
  "str_nat n = (if n < 10 then [digit_char n] else str_nat (n div 10) @ [digit_char (n mod 10)])"

declare str_nat.simps [simp del]

text \<open>
  The format \<open>.2f\<close>: the exact binary value rounded to two decimals (ties to even, on
  the exact value), all digits of the integer part written out, a minus sign for a
  negative float, negative zero included; \<open>inf\<close>, \<open>-inf\<close> and \<open>nan\<close> for the others.
  \<open>two_decimals n\<close> writes \<open>n\<close> hundredths.
\<close>

definition two_decimals :: "nat \<Rightarrow> string" where
  "two_decimals n =
     str_nat (n div 100) @ ''.'' @ [digit_char (n mod 100 div 10), digit_char (n mod 10)]"

fun fmt2 :: "pyfloat \<Rightarrow> string" where
  "fmt2 NaN = ''nan''"
| "fmt2 (Infinity s) = (if s then ''-inf'' else ''inf'')"
| "fmt2 (Finite s m e) =
     (if s then ''-'' else []) @
     two_decimals (div_half_even (m * 100 * 2 ^ nat e) (2 ^ nat (- e)))"

section \<open>The library functions of the runtime\<close>

text \<open>
  Two builtins that \<open>Report.performance\<close> calls are not the same function in every Python:
  \<open>float(str)\<close> also reads digits and spaces beyond ASCII, and \<open>sum\<close> over floats adds
  from left to right up to CPython 3.11 and with a compensation term from 3.12 on. The
  model takes both as parameters, so that what is proved of \<open>performance R\<close> holds for
  every runtime \<open>R\<close>. \<open>float_of_str\<close> returns \<open>None\<close> where \<open>float\<close> raises \<open>ValueError\<close>.
\<close>

record runtime =
  float_of_str :: "string \<Rightarrow> pyfloat option"
  sum_floats :: "pyfloat list \<Rightarrow> pyfloat"

subsection \<open>\<open>float(str)\<close> on ASCII text\<close>

definition digit_table :: "(char \<times> nat) list" where
  "digit_table =
     [(CHR ''0'', 0), (CHR ''1'', 1), (CHR ''2'', 2), (CHR ''3'', 3), (CHR ''4'', 4),
      (CHR ''5'', 5), (CHR ''6'', 6), (CHR ''7'', 7), (CHR ''8'', 8), (CHR ''9'', 9)]"

definition is_digit :: "char \<Rightarrow> bool" where
  "is_digit c = (map_of digit_table c \<noteq> None)"

definition digit_val :: "char \<Rightarrow> nat" where
  "digit_val c = (case map_of digit_table c of Some d \<Rightarrow> d | None \<Rightarrow> 0)"

definition digits_val :: "string \<Rightarrow> nat" where
  "digits_val ds = foldl (\<lambda>a c. 10 * a + digit_val c) 0 ds"

text \<open>The ASCII characters that \<open>float\<close> strips from both ends: tab, line feed, vertical
  tab, form feed, carriage return and space.\<close>

definition is_space :: "char \<Rightarrow> bool" where
  "is_space c = (c \<in> set [CHR 0x09, CHR 0x0A, CHR 0x0B, CHR 0x0C, CHR 0x0D, CHR 0x20])"

definition strip :: "string \<Rightarrow> string" where
  "strip s = rev (dropWhile is_space (rev (dropWhile is_space s)))"

text \<open>An underscore is accepted only between two digits; \<open>underscores_ok prev s\<close> reads
  \<open>s\<close> with the character before it in hand.\<close>

fun underscores_ok :: "char \<Rightarrow> string \<Rightarrow> bool" where
  "underscores_ok prev [] = (prev \<noteq> CHR ''_'')"
| "underscores_ok prev (c # cs) =
     ((if c = CHR ''_'' then is_digit prev
       else if prev = CHR ''_'' then is_digit c else True)
      \<and> underscores_ok c cs)"

text \<open>The letters of \<open>inf\<close>, \<open>infinity\<close> and \<open>nan\<close> are read in either case.\<close>

definition fold_case :: "char \<Rightarrow> char" where
  "fold_case c =
     (case map_of [(CHR ''I'', CHR ''i''), (CHR ''N'', CHR ''n''), (CHR ''F'', CHR ''f''),
                   (CHR ''T'', CHR ''t''), (CHR ''Y'', CHR ''y''), (CHR ''A'', CHR ''a'')] c of
        Some l \<Rightarrow> l | None \<Rightarrow> c)"

fun split_sign :: "string \<Rightarrow> bool \<times> string" where
  "split_sign [] = (False, [])"
| "split_sign (c # cs) =
     (if c = CHR ''-'' then (True, cs) else if c = CHR ''+'' then (False, cs)
      else (False, c # cs))"

text \<open>
  A decimal literal: digits, an optional point with digits after it (one of the two digit
  runs may be empty, not both), an optional exponent of at least one digit. The result
  is the integer of all the digits and the power of ten that scales it.
\<close>

fun signed_digits :: "bool \<times> string \<Rightarrow> int option" where
  "signed_digits (neg, ds) =
     (if ds \<noteq> [] \<and> list_all is_digit ds
      then Some (if neg then - int (digits_val ds) else int (digits_val ds))
      else None)"

fun parse_exponent :: "string \<Rightarrow> int option" where
  "parse_exponent [] = Some 0"
| "parse_exponent (c # cs) =
     (if c = CHR ''e'' \<or> c = CHR ''E'' then signed_digits (split_sign cs) else None)"

fun scale_by :: "nat \<Rightarrow> nat \<Rightarrow> int option \<Rightarrow> (nat \<times> int) option" where
  "scale_by m k None = None"
| "scale_by m k (Some x) = Some (m, x - int k)"

definition parse_parts :: "string \<Rightarrow> string \<Rightarrow> string \<Rightarrow> (nat \<times> int) option" where
  "parse_parts ip fp rest =
     (if ip = [] \<and> fp = [] then None
      else scale_by (digits_val (ip @ fp)) (length fp) (parse_exponent rest))"

fun parse_fraction :: "string \<Rightarrow> string \<Rightarrow> (nat \<times> int) option" where
  "parse_fraction ip [] = parse_parts ip [] []"
| "parse_fraction ip (c # cs) =
     (if c = CHR ''.'' then parse_parts ip (takeWhile is_digit cs) (dropWhile is_digit cs)
      else parse_parts ip [] (c # cs))"

definition parse_decimal :: "string \<Rightarrow> (nat \<times> int) option" where
  "parse_decimal s = parse_fraction (takeWhile is_digit s) (dropWhile is_digit s)"

fun decimal_float :: "bool \<Rightarrow> (nat \<times> int) option \<Rightarrow> pyfloat option" where
  "decimal_float neg None = None"
| "decimal_float neg (Some (m, x)) = Some (round_ratio neg (m * 10 ^ nat x) (10 ^ nat (- x)))"

definition float_of_word :: "bool \<Rightarrow> string \<Rightarrow> string \<Rightarrow> pyfloat option" where
  "float_of_word neg v w =
     (if w = ''inf'' \<or> w = ''infinity'' then Some (Infinity neg)
      else if w = ''nan'' then Some NaN
      else decimal_float neg (parse_decimal v))"

fun float_of_signed :: "bool \<times> string \<Rightarrow> pyfloat option" where
  "float_of_signed (neg, v) = float_of_word neg v (map fold_case v)"

definition float_of_stripped :: "string \<Rightarrow> pyfloat option" where
  "float_of_stripped t =
     (if underscores_ok (CHR 0x00) t
      then float_of_signed (split_sign (filter (\<lambda>c. c \<noteq> CHR ''_'') t))
      else None)"

definition float_of_ascii :: "string \<Rightarrow> pyfloat option" where
  "float_of_ascii s = float_of_stripped (strip s)"

subsection \<open>\<open>sum\<close> over floats\<close>

text \<open>\<open>sum\<close> starts from the \<open>int\<close> zero, so the first addition is \<open>0.0 + x\<close>. Up to
  CPython 3.11 the other items are added in turn.\<close>

definition sum_plain :: "pyfloat list \<Rightarrow> pyfloat" where
  "sum_plain xs = foldl float_add (float_zero False) xs"

text \<open>From CPython 3.12 on, the additions after the first carry a compensation \<open>c\<close>
  (Neumaier's summation), added at the end when it is non-zero and finite.\<close>

definition compensate :: "pyfloat \<Rightarrow> pyfloat \<Rightarrow> pyfloat \<Rightarrow> pyfloat" where
  "compensate f x t =
     (if float_le (float_abs x) (float_abs f) then float_add (float_sub f t) x
      else float_add (float_sub x t) f)"

fun neumaier :: "pyfloat \<Rightarrow> pyfloat \<Rightarrow> pyfloat list \<Rightarrow> pyfloat" where
  "neumaier f c [] = (if \<not> is_zero c \<and> is_finite c then float_add f c else f)"
| "neumaier f c (x # xs) =
     neumaier (float_add f x) (float_add c (compensate f x (float_add f x))) xs"

fun sum_compensated :: "pyfloat list \<Rightarrow> pyfloat" where
  "sum_compensated [] = float_zero False"
| "sum_compensated (x # xs) = neumaier (float_add (float_zero False) x) (float_zero False) xs"

definition cpython311 :: runtime where
  "cpython311 = \<lparr>float_of_str = float_of_ascii, sum_floats = sum_plain\<rparr>"

definition cpython312 :: runtime where
  "cpython312 = \<lparr>float_of_str = float_of_ascii, sum_floats = sum_compensated\<rparr>"

section \<open>\<open>Report.performance\<close>\<close>

text \<open>\<open>headers.index(name)\<close>: the position of the first cell equal to \<open>name\<close>; \<open>None\<close>
  where \<open>list.index\<close> raises \<open>ValueError\<close>.\<close>

fun index_of :: "string \<Rightarrow> row \<Rightarrow> nat option" where
  "index_of name [] = None"
| "index_of name (c # cs) = (if c = name then Some 0 else map_option Suc (index_of name cs))"

text \<open>\<open>row[i]\<close> for an index that is not negative: \<open>IndexError\<close> beyond the end.\<close>

definition cell_at :: "row \<Rightarrow> nat \<Rightarrow> error + string" where
  "cell_at r i = (if i < length r then Inr (r ! i) else Inl IndexError)"

text \<open>
  The dictionary \<open>perf_data\<close> keeps its keys in the order of their first insertion, and
  the report is built from \<open>perf_data.items()\<close> in that order: it is an association list
  with one entry for each key. \<open>add_observation\<close> is the body of the loop after the two
  reads: a new key enters at the end with an empty list, then the observation is appended
  to the list of its key.
\<close>

type_synonym groups = "(string \<times> pyfloat list) list"

fun add_observation :: "string \<Rightarrow> pyfloat \<Rightarrow> groups \<Rightarrow> groups" where
  "add_observation position v [] = [(position, [v])]"
| "add_observation position v ((k, vs) # g) =
     (if k = position then (k, vs @ [v]) # g else (k, vs) # add_observation position v g)"

text \<open>The loop over the data rows. Each row reads \<open>row[pos_idx]\<close>, then \<open>row[perf_idx]\<close>,
  then converts the latter; the first exception ends the loop.\<close>

fun group_rows :: "runtime \<Rightarrow> nat \<Rightarrow> nat \<Rightarrow> row list \<Rightarrow> groups \<Rightarrow> error + groups" where
  "group_rows R pos_idx perf_idx [] perf_data = Inr perf_data"
| "group_rows R pos_idx perf_idx (r # rows) perf_data =
     (case cell_at r pos_idx of
        Inl e \<Rightarrow> Inl e
      | Inr position \<Rightarrow>
          (case cell_at r perf_idx of
             Inl e \<Rightarrow> Inl e
           | Inr cell \<Rightarrow>
               (case float_of_str R cell of
                  None \<Rightarrow> Inl (InvalidValue cell)
                | Some v \<Rightarrow> group_rows R pos_idx perf_idx rows (add_observation position v perf_data))))"

text \<open>\<open>sum(perf) / len(perf)\<close>.\<close>

definition group_mean :: "runtime \<Rightarrow> pyfloat list \<Rightarrow> error + pyfloat" where
  "group_mean R perf = float_div (sum_floats R perf) (float_of_nat (length perf))"

text \<open>The list comprehension: one two-cell row \<open>[pos, f"{mean:.2f}"]\<close> for each item.\<close>

fun average_rows :: "runtime \<Rightarrow> groups \<Rightarrow> error + row list" where
  "average_rows R [] = Inr []"
| "average_rows R ((pos, perf) # g) =
     (case group_mean R perf of
        Inl e \<Rightarrow> Inl e
      | Inr a \<Rightarrow> (case average_rows R g of Inl e \<Rightarrow> Inl e | Inr rs \<Rightarrow> Inr ([pos, fmt2 a] # rs)))"

text \<open>
  \<open>result.sort(key=lambda x: float(x[1]), reverse=True)\<close>. The keys of all the rows are
  computed first, in order. The sort is stable and \<open>reverse=True\<close> keeps the rows of
  equal keys in their order: taking the rows from the last to the first, each one is put
  in front of the rows sorted so far, behind the rows of a greater key only.
  Where no key is a NaN, \<open><\<close> on the keys is a strict weak order and this list is what
  every stable sort returns; with a NaN among the keys the order Python returns depends
  on its sorting algorithm, and only the rows as a collection are the same.
\<close>

fun sort_keys :: "runtime \<Rightarrow> row list \<Rightarrow> error + (pyfloat \<times> row) list" where
  "sort_keys R [] = Inr []"
| "sort_keys R (x # xs) =
     (case cell_at x 1 of
        Inl e \<Rightarrow> Inl e
      | Inr cell \<Rightarrow>
          (case float_of_str R cell of
             None \<Rightarrow> Inl (InvalidValue cell)
           | Some k \<Rightarrow> (case sort_keys R xs of Inl e \<Rightarrow> Inl e | Inr ks \<Rightarrow> Inr ((k, x) # ks))))"

fun insert_desc :: "pyfloat \<times> row \<Rightarrow> (pyfloat \<times> row) list \<Rightarrow> (pyfloat \<times> row) list" where
  "insert_desc x [] = [x]"
| "insert_desc x (y # ys) =
     (if float_lt (fst x) (fst y) then y # insert_desc x ys else x # y # ys)"

definition sort_desc :: "(pyfloat \<times> row) list \<Rightarrow> (pyfloat \<times> row) list" where
  "sort_desc xs = foldr insert_desc xs []"

text \<open>\<open>[[str(i + 1), *row] for i, row in enumerate(result)]\<close>, from the index \<open>i\<close> on.\<close>

fun number_rows :: "nat \<Rightarrow> row list \<Rightarrow> row list" where
  "number_rows i [] = []"
| "number_rows i (r # rs) = (str_nat (i + 1) # r) # number_rows (i + 1) rs"

text \<open>The header of the report; its first cell is the numero sign U+2116 (in UTF-8).\<close>

definition report_header :: row where
  "report_header = [[CHR 0xE2, CHR 0x84, CHR 0x96], ''position'', ''performance'']"

definition performance :: "runtime \<Rightarrow> table \<Rightarrow> error + (row \<times> row list)" where
  "performance R data =
     (case data of
        [] \<Rightarrow> Inl IndexError
      | headers # rows \<Rightarrow>
          (case index_of ''position'' headers of
             None \<Rightarrow> Inl (MissingColumn ''position'')
           | Some pos_idx \<Rightarrow>
               (case index_of ''performance'' headers of
                  None \<Rightarrow> Inl (MissingColumn ''performance'')
                | Some perf_idx \<Rightarrow>
                    (case group_rows R pos_idx perf_idx rows [] of
                       Inl e \<Rightarrow> Inl e
                     | Inr perf_data \<Rightarrow>
                         (case average_rows R perf_data of
                            Inl e \<Rightarrow> Inl e
                          | Inr result \<Rightarrow>
                              (case sort_keys R result of
                                 Inl e \<Rightarrow> Inl e
                               | Inr keyed \<Rightarrow>
                                   Inr (report_header,
                                        number_rows 0 (map snd (sort_desc keyed)))))))))"


section \<open>\<open>Report.generate\<close>\<close>

text \<open>
  \<open>generate\<close> looks the report up with \<open>getattr(cls, report_name, None)\<close>, that is among
  all the attributes of the class \<open>Report\<close>: the two methods its body defines, and the
  attributes every class has from \<open>object\<close>, from \<open>type\<close> and from the class statement
  (\<open>__doc__\<close>, \<open>__init__\<close>, \<open>__class__\<close>, \<open>mro\<close> and so on), which the model takes as
  the parameter \<open>inherited\<close>. An attribute is either callable, and then stands for what
  calling it with the one argument \<open>data\<close> does, or it is not (or is falsy).
  What a call returns is a report, or some other Python object.
\<close>

datatype pyvalue = Report_result row "row list" | Other_object

datatype attribute = Not_callable | Callable "table \<Rightarrow> error + pyvalue"

text \<open>
  The bound class method \<open>Report.generate\<close>, called with \<open>data\<close> alone, binds it to
  \<open>report_name\<close> and lacks its second argument: \<open>TypeError\<close>. The static method
  \<open>Report.performance\<close> is the report.
\<close>

definition getattr_Report :: "runtime \<Rightarrow> (string \<Rightarrow> attribute option) \<Rightarrow> string \<Rightarrow> attribute option" where
  "getattr_Report R inherited name =
     (if name = ''generate'' then Some (Callable (\<lambda>data. Inl TypeError))
      else if name = ''performance'' then
        Some (Callable (\<lambda>data. case performance R data of
                                   Inl e \<Rightarrow> Inl e
                                 | Inr (headers, rows) \<Rightarrow> Inr (Report_result headers rows)))
      else inherited name)"

definition generate :: "runtime \<Rightarrow> (string \<Rightarrow> attribute option) \<Rightarrow> string \<Rightarrow> table \<Rightarrow> error + pyvalue" where
  "generate R inherited report_name data =
     (case getattr_Report R inherited report_name of
        None \<Rightarrow> Inl (UnknownReport report_name)
      | Some Not_callable \<Rightarrow> Inl (UnknownReport report_name)
      | Some (Callable method) \<Rightarrow> method data)"

section \<open>\<open>CSVReader.read\<close> and the loop of \<open>Main.run\<close>\<close>

text \<open>
  The file system maps a path to nothing when no such path exists, and otherwise to what
  opening the file, decoding it and reading it with \<open>csv.reader\<close> yields: the table, or
  the exception raised on the way. Parsing CSV text is the library's.
\<close>

type_synonym filesystem = "string \<Rightarrow> (error + table) option"

definition endswith :: "string \<Rightarrow> string \<Rightarrow> bool" where
  "endswith s suffix =
     (length suffix \<le> length s \<and> drop (length s - length suffix) s = suffix)"

text \<open>\<open>CSVReader.read\<close> returns its result together with the paths it has passed to
  \<open>open\<close>.\<close>

definition read :: "filesystem \<Rightarrow> string \<Rightarrow> (error + table) \<times> string list" where
  "read fs file_path =
     (if \<not> endswith file_path ''.csv'' then (Inl (InvalidFormat file_path), [])
      else ((case fs file_path of None \<Rightarrow> Inl (NotFound file_path) | Some r \<Rightarrow> r), [file_path]))"

text \<open>
  The loop of \<open>Main.run\<close> over \<open>self.args.files\<close>, with the accumulator \<open>all_data\<close>.
  \<open>parser.error\<close> ends the process: for a path that does not exist, and for any
  exception of \<open>CSVReader.read\<close>. \<open>if not all_data\<close> holds for the empty list.
\<close>

datatype exit = File_missing string | Read_failed string error

fun merge_files :: "filesystem \<Rightarrow> string list \<Rightarrow> table \<Rightarrow> exit + table" where
  "merge_files fs [] all_data = Inr all_data"
| "merge_files fs (file_path # files) all_data =
     (if fs file_path = None then Inl (File_missing file_path)
      else case fst (read fs file_path) of
             Inl e \<Rightarrow> Inl (Read_failed file_path e)
           | Inr data \<Rightarrow>
               merge_files fs files (if all_data = [] then data else all_data @ drop 1 data))"

section \<open>The notions of the specification\<close>

text \<open>
  The specification speaks of valid input tables, of the distinct values of the
  \<open>position\<close> column and of the performance values of a group. These definitions follow
  its words; they are not part of the program.
\<close>

text \<open>The values of the \<open>position\<close> column, one for each data row.\<close>

definition position_values :: "table \<Rightarrow> string list" where
  "position_values data =
     (case data of
        [] \<Rightarrow> []
      | headers # rows \<Rightarrow>
          (case index_of ''position'' headers of
             None \<Rightarrow> []
           | Some pos_idx \<Rightarrow> map (\<lambda>r. r ! pos_idx) rows))"

text \<open>The parsed \<open>performance\<close> cells of the rows whose position is \<open>k\<close>, in the order
  of the rows.\<close>

definition observations :: "runtime \<Rightarrow> nat \<Rightarrow> nat \<Rightarrow> row list \<Rightarrow> string \<Rightarrow> pyfloat list" where
  "observations R pos_idx perf_idx rows k =
     List.map_filter (\<lambda>r. float_of_str R (r ! perf_idx)) (filter (\<lambda>r. r ! pos_idx = k) rows)"

definition group_values :: "runtime \<Rightarrow> table \<Rightarrow> string \<Rightarrow> pyfloat list" where
  "group_values R data k =
     (case data of
        [] \<Rightarrow> []
      | headers # rows \<Rightarrow>
          (case index_of ''position'' headers of
             None \<Rightarrow> []
           | Some pos_idx \<Rightarrow>
               (case index_of ''performance'' headers of
                  None \<Rightarrow> []
                | Some perf_idx \<Rightarrow> observations R pos_idx perf_idx rows k)))"

text \<open>
  A valid input table: a header row that names \<open>position\<close> and \<open>performance\<close>, and data
  rows that reach both columns and whose \<open>performance\<close> cell \<open>float\<close> accepts.
\<close>

definition valid_table :: "runtime \<Rightarrow> table \<Rightarrow> bool" where
  "valid_table R data =
     (case data of
        [] \<Rightarrow> False
      | headers # rows \<Rightarrow>
          (case index_of ''position'' headers of
             None \<Rightarrow> False
           | Some pos_idx \<Rightarrow>
               (case index_of ''performance'' headers of
                  None \<Rightarrow> False
                | Some perf_idx \<Rightarrow>
                    list_all (\<lambda>r. pos_idx < length r \<and> perf_idx < length r
                                  \<and> float_of_str R (r ! perf_idx) \<noteq> None) rows)))"

text \<open>A runtime whose \<open>float\<close> accepts whatever its format \<open>.2f\<close> writes, as Python's
  does.\<close>

definition reads_back :: "runtime \<Rightarrow> bool" where
  "reads_back R = (\<forall>a. float_of_str R (fmt2 a) \<noteq> None)"

text \<open>Fixed-point notation with exactly two digits after the point: an optional minus
  sign, at least one digit, the point, two digits.\<close>

definition unsigned_fixed2 :: "string \<Rightarrow> bool" where
  "unsigned_fixed2 s =
     (case rev s of
        d2 # d1 # p # ip \<Rightarrow>
          is_digit d2 \<and> is_digit d1 \<and> p = CHR ''.'' \<and> ip \<noteq> [] \<and> list_all is_digit ip
      | _ \<Rightarrow> False)"

definition fixed_point2 :: "string \<Rightarrow> bool" where
  "fixed_point2 s =
     (unsigned_fixed2 s \<or> (case s of [] \<Rightarrow> False | c # t \<Rightarrow> c = CHR ''-'' \<and> unsigned_fixed2 t))"

text \<open>The list of observations that the dictionary \<open>perf_data\<close> holds for a key.\<close>

definition observed :: "groups \<Rightarrow> string \<Rightarrow> pyfloat list" where
  "observed g k = (case map_of g k of None \<Rightarrow> [] | Some vs \<Rightarrow> vs)"

text \<open>A row of the report before the rows are numbered, with the key of the sort: the
  position of a group and the formatted mean of its values, the key being what \<open>float\<close>
  reads from that cell.\<close>

definition report_row :: "runtime \<Rightarrow> table \<Rightarrow> pyfloat \<times> row \<Rightarrow> bool" where
  "report_row R data kx =
     (\<exists>k a. k \<in> set (position_values data) \<and> group_values R data k \<noteq> []
          \<and> group_mean R (group_values R data k) = Inr a
          \<and> snd kx = [k, fmt2 a] \<and> float_of_str R (fmt2 a) = Some (fst kx))"

section \<open>Example inputs\<close>

text \<open>The table of the test \<open>test_performance_report\<close>.\<close>

definition sample_data :: table where
  "sample_data =
     [[''name'', ''position'', ''performance''],
      [''Alice'', ''Backend'', ''4.8''],
      [''Bob'', ''Backend'', ''5.0''],
      [''Charlie'', ''Frontend'', ''4.4''],
      [''Diana'', ''Frontend'', ''4.6'']]"

text \<open>Two groups of one row each; the means \<open>4.5\<close> and \<open>4.50390625\<close> are binary fractions
  and both are written \<open>4.50\<close>.\<close>

definition close_means :: table where
  "close_means =
     [[''position'', ''performance''],
      [''A'', ''4.5''],
      [''B'', ''4.50390625'']]"

text \<open>A table whose only performance cell is the text \<open>inf\<close>, which \<open>float\<close> accepts.\<close>

definition infinite_cell :: table where
  "infinite_cell = [[''position'', ''performance''], [''A'', ''inf'']]"

definition two_files :: filesystem where
  "two_files =
     [''a.csv'' \<mapsto> Inr [[''position'', ''performance''], [''Backend'', ''4.8'']],
      ''b.csv'' \<mapsto> Inr [[''position'', ''performance''], [''Backend'', ''5.0''],
                          [''Frontend'', ''4.4'']]]"

definition empty_then_data :: filesystem where
  "empty_then_data =
     [''empty.csv'' \<mapsto> Inr [],
      ''b.csv'' \<mapsto> Inr [[''position'', ''performance''], [''Backend'', ''5.0'']]]"

section \<open>Reading and merging files\<close>

lemma read_existing:
  "endswith p ''.csv'' \<Longrightarrow> fs p = Some r \<Longrightarrow> fst (read fs p) = r"
  by (simp add: read_def)

lemma merge_files_empty_tables:
  "list_all (\<lambda>p. endswith p ''.csv'' \<and> fs p = Some (Inr [])) ps
   \<Longrightarrow> merge_files fs (ps @ files) [] = merge_files fs files []"
  by (induction ps) (simp_all add: read_existing)

text \<open>
  Claim C7. A path that does not end in \<open>.csv\<close> makes \<open>CSVReader.read\<close> fail with the
  \<open>InvalidFormat\<close> error that carries the path, and no path has been passed to \<open>open\<close>;
  \<open>data.txt\<close> is such a path.
\<close>

theorem read_rejects_other_suffix:
  "(\<not> endswith file_path ''.csv'' \<longrightarrow> read fs file_path = (Inl (InvalidFormat file_path), []))
   \<and> read fs ''data.txt'' = (Inl (InvalidFormat ''data.txt''), [])"
  by (simp add: read_def endswith_def)

theorem read_rejects_other_suffix_witness:
  "\<not> endswith ''report.csv.bak'' ''.csv''
   \<and> read (\<lambda>p. Some (Inr [[''position'', ''performance'']])) ''report.csv.bak''
       = (Inl (InvalidFormat ''report.csv.bak''), [])"
  using read_rejects_other_suffix
    [of "''report.csv.bak''" "\<lambda>p. Some (Inr [[''position'', ''performance'']])"]
  by (simp add: endswith_def)

text \<open>
  Claim C6. Two files whose tables have the same header and \<open>M\<close> and \<open>N\<close> data rows merge
  into the header of the first file, the data rows of the first file and then those of
  the second: one header row and \<open>M + N\<close> data rows.
\<close>

theorem merge_two_files:
  assumes "endswith p1 ''.csv''" and "endswith p2 ''.csv''"
    and "fs p1 = Some (Inr (header # rows1))" and "fs p2 = Some (Inr (header # rows2))"
  shows "merge_files fs [p1, p2] [] = Inr (header # rows1 @ rows2)
         \<and> length (header # rows1 @ rows2) = 1 + length rows1 + length rows2"
  using assms by (simp add: read_existing)

theorem merge_two_files_witness:
  "merge_files two_files [''a.csv'', ''b.csv''] []
     = Inr [[''position'', ''performance''], [''Backend'', ''4.8''], [''Backend'', ''5.0''],
            [''Frontend'', ''4.4'']]"
  using merge_two_files [of "''a.csv''" "''b.csv''" two_files "[''position'', ''performance'']"
      "[[''Backend'', ''4.8'']]" "[[''Backend'', ''5.0''], [''Frontend'', ''4.4'']]"]
  by (simp add: two_files_def endswith_def)

text \<open>
  Claim C10. While every file read so far gave an empty table, the accumulator is still
  empty, and the next file's table is taken whole, its first row included: after the
  files \<open>ps\<close> of empty tables and the file \<open>q\<close> of table \<open>t\<close> the accumulator is \<open>t\<close>,
  not \<open>t\<close> without its first row.
\<close>

theorem merge_adopts_first_nonempty:
  assumes "list_all (\<lambda>p. endswith p ''.csv'' \<and> fs p = Some (Inr [])) ps"
    and "endswith q ''.csv''" and "fs q = Some (Inr t)"
  shows "merge_files fs (ps @ [q]) [] = Inr t
         \<and> merge_files fs (ps @ q # files) [] = merge_files fs files t"
  using assms by (simp add: merge_files_empty_tables read_existing)

theorem merge_adopts_first_nonempty_witness:
  "merge_files empty_then_data [''empty.csv'', ''b.csv''] []
     = Inr [[''position'', ''performance''], [''Backend'', ''5.0'']]"
  using merge_adopts_first_nonempty [of empty_then_data "[''empty.csv'']" "''b.csv''"
      "[[''position'', ''performance''], [''Backend'', ''5.0'']]" "[]"]
  by (simp add: empty_then_data_def endswith_def)

section \<open>The dispatcher\<close>

text \<open>
  Claim C5, at the report name \<open>generate\<close>. The name is not that of a report, and
  \<open>Report.generate\<close> does not fail with \<open>UnknownReport\<close>: the lookup finds the class
  method \<open>generate\<close> itself, which is callable, and the call raises \<open>TypeError\<close>.
\<close>

theorem generate_finds_itself:
  "generate R inherited ''generate'' data = Inl TypeError"
  by (simp add: generate_def getattr_Report_def)

text \<open>The other names behave as the documentation says: \<open>performance\<close> runs the report,
  and a name that is no attribute of the class is an unknown report.\<close>

lemma generate_performance:
  "generate R inherited ''performance'' data =
     (case performance R data of
        Inl e \<Rightarrow> Inl e
      | Inr (headers, rows) \<Rightarrow> Inr (Report_result headers rows))"
  by (simp add: generate_def getattr_Report_def)

lemma generate_no_attribute:
  "name \<noteq> ''generate'' \<Longrightarrow> name \<noteq> ''performance'' \<Longrightarrow> inherited name = None
   \<Longrightarrow> generate R inherited name data = Inl (UnknownReport name)"
  by (simp add: generate_def getattr_Report_def)

section \<open>The performance report\<close>

text \<open>
  Claim C9. On the table with no row at all \<open>Report.performance\<close> returns nothing and
  raises \<open>IndexError\<close>, which is neither \<open>MissingColumn\<close> nor \<open>InvalidValue\<close>.
\<close>

theorem performance_empty_table:
  "performance R [] = Inl IndexError"
  by (simp add: performance_def)

subsection \<open>The grouping loop\<close>
lemma set_keys_add_observation:
  "set (map fst (add_observation p v g)) = insert p (set (map fst g))"
  by (induction g) (force split: if_splits)+

lemma distinct_keys_add_observation:
  "distinct (map fst g) \<Longrightarrow> distinct (map fst (add_observation p v g))"
  by (induction g) (auto simp: set_keys_add_observation simp del: set_map)

lemma observed_add_observation:
  "observed (add_observation p v g) k = (if k = p then observed g k @ [v] else observed g k)"
  by (induction g) (auto simp: observed_def)

lemma nonempty_add_observation:
  "list_all (\<lambda>kv. snd kv \<noteq> []) g \<Longrightarrow> list_all (\<lambda>kv. snd kv \<noteq> []) (add_observation p v g)"
  by (induction g) auto

lemma group_rows_Cons_Inr:
  "group_rows R pi fi (r # rows) g = Inr g' \<Longrightarrow>
   \<exists>v. pi < length r \<and> fi < length r \<and> float_of_str R (r ! fi) = Some v
       \<and> group_rows R pi fi rows (add_observation (r ! pi) v g) = Inr g'"
  by (auto simp: cell_at_def split: if_splits option.splits sum.splits)

lemma observations_Nil: "observations R pi fi [] k = []"
  by (simp add: observations_def List.map_filter_simps)

lemma observations_Cons:
  "float_of_str R (r ! fi) = Some v \<Longrightarrow>
   observations R pi fi (r # rows) k =
     (if r ! pi = k then v # observations R pi fi rows k else observations R pi fi rows k)"
  by (simp add: observations_def List.map_filter_simps)

lemma group_rows_keys:
  "group_rows R pi fi rows g = Inr g' \<Longrightarrow>
   set (map fst g') = set (map fst g) \<union> (\<lambda>r. r ! pi) ` set rows"
proof (induction rows arbitrary: g)
  case Nil
  then show ?case by simp
next
  case (Cons r rows)
  from group_rows_Cons_Inr [OF Cons.prems] obtain v
    where "group_rows R pi fi rows (add_observation (r ! pi) v g) = Inr g'" by blast
  from Cons.IH [OF this] show ?case
    by (simp add: set_keys_add_observation del: set_map)
qed

lemma group_rows_distinct:
  "group_rows R pi fi rows g = Inr g' \<Longrightarrow> distinct (map fst g) \<Longrightarrow> distinct (map fst g')"
proof (induction rows arbitrary: g)
  case Nil
  then show ?case by simp
next
  case (Cons r rows)
  from group_rows_Cons_Inr [OF Cons.prems(1)] obtain v
    where "group_rows R pi fi rows (add_observation (r ! pi) v g) = Inr g'" by blast
  from Cons.IH [OF this] Cons.prems(2) show ?case
    by (simp add: distinct_keys_add_observation)
qed

lemma group_rows_observed:
  "group_rows R pi fi rows g = Inr g' \<Longrightarrow>
   observed g' k = observed g k @ observations R pi fi rows k"
proof (induction rows arbitrary: g)
  case Nil
  then show ?case by (simp add: observations_Nil)
next
  case (Cons r rows)
  from group_rows_Cons_Inr [OF Cons.prems] obtain v
    where v: "float_of_str R (r ! fi) = Some v"
      and rest: "group_rows R pi fi rows (add_observation (r ! pi) v g) = Inr g'" by blast
  from Cons.IH [OF rest] show ?case
    by (auto simp: observed_add_observation observations_Cons [OF v])
qed

lemma group_rows_nonempty:
  "group_rows R pi fi rows g = Inr g' \<Longrightarrow> list_all (\<lambda>kv. snd kv \<noteq> []) g
   \<Longrightarrow> list_all (\<lambda>kv. snd kv \<noteq> []) g'"
proof (induction rows arbitrary: g)
  case Nil
  then show ?case by simp
next
  case (Cons r rows)
  from group_rows_Cons_Inr [OF Cons.prems(1)] obtain v
    where "group_rows R pi fi rows (add_observation (r ! pi) v g) = Inr g'" by blast
  from Cons.IH [OF this] Cons.prems(2) show ?case
    by (simp add: nonempty_add_observation)
qed

lemma group_rows_total:
  "list_all (\<lambda>r. pi < length r \<and> fi < length r \<and> float_of_str R (r ! fi) \<noteq> None) rows
   \<Longrightarrow> \<exists>g'. group_rows R pi fi rows g = Inr g'"
  by (induction rows arbitrary: g) (auto simp: cell_at_def)

lemma group_rows_length:
  "group_rows R pi fi rows g = Inr g' \<Longrightarrow> length g' \<le> length g + length rows"
proof (induction rows arbitrary: g)
  case Nil
  then show ?case by simp
next
  case (Cons r rows)
  from group_rows_Cons_Inr [OF Cons.prems(1)] obtain v
    where "group_rows R pi fi rows (add_observation (r ! pi) v g) = Inr g'" by blast
  from Cons.IH [OF this] have "length g' \<le> length (add_observation (r ! pi) v g) + length rows" .
  moreover have "length (add_observation p w h) \<le> Suc (length h)" for p w h
    by (induction h) auto
  ultimately show ?case
    by (metis (no_types, opaque_lifting) add_Suc_right add_Suc le_trans add_le_mono1 length_Cons)
qed

subsection \<open>Arithmetic of the float model\<close>

lemma bit_length_pos: "0 < n \<Longrightarrow> 0 < bit_length n"
  by (subst bit_length.simps) simp

lemma bit_length_lower: "0 < n \<Longrightarrow> 2 ^ (bit_length n - 1) \<le> n"
proof (induction n rule: bit_length.induct)
  case (1 n)
  show ?case
  proof (cases "n div 2 = 0")
    case True
    with "1.prems" have "n = 1" by (simp add: div_eq_0_iff)
    then show ?thesis by (simp add: bit_length.simps)
  next
    case False
    then have pos: "0 < n div 2" by simp
    from "1.prems" have n0: "n \<noteq> 0" by simp
    from "1.IH" [OF n0 pos] have ih: "2 ^ (bit_length (n div 2) - 1) \<le> n div 2" .
    have bl: "bit_length n = bit_length (n div 2) + 1"
      using n0 by (subst bit_length.simps) simp
    from bit_length_pos [OF pos] have "2 ^ bit_length (n div 2) = (2::nat) * 2 ^ (bit_length (n div 2) - 1)"
      by (cases "bit_length (n div 2)") simp_all
    also have "\<dots> \<le> 2 * (n div 2)" using ih by simp
    also have "\<dots> \<le> n" by simp
    finally show ?thesis by (simp add: bl)
  qed
qed

lemma bit_length_one: "bit_length (Suc 0) = Suc 0"
  by (simp add: bit_length.simps)

lemma floor_log2_nat: "0 < n \<Longrightarrow> floor_log2 n (Suc 0) = int (bit_length n) - 1"
proof -
  assume n: "0 < n"
  define k where "k = bit_length n - 1"
  have k: "int (bit_length n) - int (bit_length (Suc 0)) = int k"
    using bit_length_pos [OF n] by (simp add: bit_length_one k_def)
  have "floor_log2_near n (Suc 0) (int k) = int k"
    using bit_length_lower [OF n] by (simp add: floor_log2_near_def k_def)
  then show ?thesis
    using bit_length_pos [OF n] by (simp add: floor_log2_def k) (simp add: k_def)
qed

lemma div_half_even_pos: "0 < d \<Longrightarrow> d \<le> n \<Longrightarrow> 0 < div_half_even n d"
proof -
  assume "0 < d" and "d \<le> n"
  then have "0 < n div d" by (simp add: div_greater_zero_iff)
  then show ?thesis by (simp add: div_half_even_def round_half_even_def)
qed

lemma pack_nonzero: "0 < m \<Longrightarrow> \<not> is_zero (pack s m e)"
  by (simp add: pack_def)

lemma float_of_nat_nonzero: "0 < n \<Longrightarrow> \<not> is_zero (float_of_nat n)"
proof -
  assume n: "0 < n"
  define b where "b = bit_length n"
  have b: "0 < b" "2 ^ (b - 1) \<le> n"
    using bit_length_pos [OF n] bit_length_lower [OF n] by (simp_all add: b_def)
  define e where "e = int b - 53"
  have e: "max (floor_log2 n (Suc 0) - 52) (- 1074) = e"
    using b(1) by (simp add: floor_log2_nat [OF n] e_def b_def)
  have "(2::nat) ^ nat e \<le> n * 2 ^ nat (- e)"
  proof (cases "0 < e")
    case True
    then have "nat e \<le> b - 1" by (simp add: e_def)
    then have "(2::nat) ^ nat e \<le> 2 ^ (b - 1)" by (simp add: power_increasing)
    also have "\<dots> \<le> n" by (rule b(2))
    finally show ?thesis using True by simp
  next
    case False
    then have "nat e = 0" by simp
    then show ?thesis using n by (simp add: Suc_le_eq)
  qed
  then have "0 < div_half_even (n * 2 ^ nat (- e)) (2 ^ nat e)"
    by (intro div_half_even_pos) simp_all
  moreover have "float_of_nat n = pack False (div_half_even (n * 2 ^ nat (- e)) (2 ^ nat e)) e"
    using n e by (simp add: float_of_nat_def round_ratio_def round_at_def)
  ultimately show ?thesis
    by (simp add: pack_nonzero)
qed

lemma float_div_nonzero: "\<not> is_zero y \<Longrightarrow> \<exists>a. float_div x y = Inr a"
  by (cases x; cases y) auto

lemma group_mean_total: "perf \<noteq> [] \<Longrightarrow> \<exists>a. group_mean R perf = Inr a"
  by (simp add: group_mean_def float_div_nonzero float_of_nat_nonzero)

lemma float_lt_asym: "float_lt a b \<Longrightarrow> \<not> float_lt b a"
  by (cases a; cases b) (auto simp: min.commute)

lemma float_le_total: "a \<noteq> NaN \<Longrightarrow> b \<noteq> NaN \<Longrightarrow> \<not> float_lt a b \<Longrightarrow> float_le b a"
  by (cases a; cases b) (auto simp: float_le_def min.commute)

subsection \<open>The stages of the report\<close>

lemma average_rows_total:
  "list_all (\<lambda>kv. snd kv \<noteq> []) g \<Longrightarrow> \<exists>rs. average_rows R g = Inr rs"
proof (induction g)
  case Nil
  then show ?case by simp
next
  case (Cons kv g)
  obtain k perf where kv: "kv = (k, perf)" by (cases kv)
  with Cons.prems have "perf \<noteq> []" by simp
  from group_mean_total [OF this] obtain a where "group_mean R perf = Inr a" by blast
  moreover from Cons obtain rs where "average_rows R g = Inr rs" by auto
  ultimately show ?case by (simp add: kv)
qed

lemma average_rows_shape:
  "average_rows R g = Inr rs \<Longrightarrow>
   list_all2 (\<lambda>kv r. \<exists>a. group_mean R (snd kv) = Inr a \<and> r = [fst kv, fmt2 a]) g rs"
proof (induction g arbitrary: rs)
  case Nil
  then show ?case by simp
next
  case (Cons kv g)
  obtain k perf where kv: "kv = (k, perf)" by (cases kv)
  from Cons.prems obtain a rs' where a: "group_mean R perf = Inr a"
    and rs': "average_rows R g = Inr rs'" and rs: "rs = [k, fmt2 a] # rs'"
    by (auto simp: kv split: sum.splits)
  from Cons.IH [OF rs'] a rs show ?case by (simp add: kv)
qed

lemma sort_keys_shape:
  "sort_keys R rs = Inr ks \<Longrightarrow>
   map snd ks = rs \<and>
   list_all (\<lambda>kx. 1 < length (snd kx) \<and> float_of_str R (snd kx ! 1) = Some (fst kx)) ks"
proof (induction rs arbitrary: ks)
  case Nil
  then show ?case by simp
next
  case (Cons x rs)
  from Cons.prems obtain k ks' where "1 < length x" "float_of_str R (x ! 1) = Some k"
    "sort_keys R rs = Inr ks'" "ks = (k, x) # ks'"
    by (auto simp: cell_at_def split: sum.splits option.splits if_splits)
  with Cons.IH [of ks'] show ?case by simp
qed

lemma sort_keys_total:
  "reads_back R \<Longrightarrow> list_all (\<lambda>r. \<exists>k a. r = [k, fmt2 a]) rs \<Longrightarrow> \<exists>ks. sort_keys R rs = Inr ks"
proof (induction rs)
  case Nil
  then show ?case by simp
next
  case (Cons x rs)
  from Cons.prems(2) obtain k a where x: "x = [k, fmt2 a]" by auto
  from Cons.prems(1) obtain v where "float_of_str R (fmt2 a) = Some v"
    by (auto simp: reads_back_def)
  moreover from Cons obtain ks where "sort_keys R rs = Inr ks" by auto
  ultimately show ?case by (simp add: x cell_at_def)
qed

lemma mset_insert_desc: "mset (insert_desc x ys) = add_mset x (mset ys)"
  by (induction ys) auto

lemma mset_sort_desc: "mset (sort_desc xs) = mset xs"
  by (induction xs) (auto simp: sort_desc_def mset_insert_desc)

lemma successively_insert_desc:
  "successively (\<lambda>a b. \<not> float_lt (fst a) (fst b)) ys \<Longrightarrow>
   successively (\<lambda>a b. \<not> float_lt (fst a) (fst b)) (insert_desc x ys)"
proof (induction ys)
  case Nil
  then show ?case by simp
next
  case (Cons y ys)
  show ?case
  proof (cases "float_lt (fst x) (fst y)")
    case False
    with Cons.prems show ?thesis by simp
  next
    case True
    then have not_less: "\<not> float_lt (fst y) (fst x)" by (rule float_lt_asym)
    from Cons have ih: "successively (\<lambda>a b. \<not> float_lt (fst a) (fst b)) (insert_desc x ys)"
      by (cases ys) simp_all
    show ?thesis
    proof (cases ys)
      case Nil
      with True not_less show ?thesis by simp
    next
      case (Cons z zs)
      with True not_less ih Cons.prems show ?thesis by (auto simp: successively_Cons)
    qed
  qed
qed

lemma successively_sort_desc:
  "successively (\<lambda>a b. \<not> float_lt (fst a) (fst b)) (sort_desc xs)"
  by (induction xs) (simp_all add: sort_desc_def successively_insert_desc)

lemma map_tl_number_rows: "map tl (number_rows i rs) = rs"
  by (induction rs arbitrary: i) simp_all

lemma length_number_rows: "length (number_rows i rs) = length rs"
  by (induction rs arbitrary: i) simp_all

lemma nth_number_rows:
  "j < length rs \<Longrightarrow> number_rows i rs ! j = str_nat (i + j + 1) # rs ! j"
proof (induction rs arbitrary: i j)
  case Nil
  then show ?case by simp
next
  case (Cons r rs)
  then show ?case by (cases j) simp_all
qed

lemma performance_Inr:
  "performance R data = Inr (hdr, out) \<Longrightarrow>
   \<exists>headers rows pos_idx perf_idx perf_data result keyed.
     data = headers # rows \<and>
     index_of ''position'' headers = Some pos_idx \<and>
     index_of ''performance'' headers = Some perf_idx \<and>
     group_rows R pos_idx perf_idx rows [] = Inr perf_data \<and>
     average_rows R perf_data = Inr result \<and>
     sort_keys R result = Inr keyed \<and>
     hdr = report_header \<and>
     out = number_rows 0 (map snd (sort_desc keyed))"
  by (auto simp: performance_def split: list.splits option.splits sum.splits)

lemma list_all2_first_cells:
  "list_all2 (\<lambda>kv r. \<exists>a. group_mean R (snd kv) = Inr a \<and> r = [fst kv, fmt2 a]) g rs
   \<Longrightarrow> map (\<lambda>x. x ! 0) rs = map fst g"
  by (induction g rs rule: list_all2_induct) auto

lemma list_all2_row_origin:
  "list_all2 (\<lambda>kv r. \<exists>a. group_mean R (snd kv) = Inr a \<and> r = [fst kv, fmt2 a]) g rs
   \<Longrightarrow> x \<in> set rs
   \<Longrightarrow> \<exists>k vs a. (k, vs) \<in> set g \<and> group_mean R vs = Inr a \<and> x = [k, fmt2 a]"
proof (induction g rs rule: list_all2_induct)
  case Nil
  then show ?case by simp
next
  case (Cons kv g r rs)
  show ?case
  proof (cases "x = r")
    case True
    with Cons.hyps(1) have "\<exists>a. group_mean R (snd kv) = Inr a \<and> x = [fst kv, fmt2 a]" by simp
    then obtain a where "group_mean R (snd kv) = Inr a" "x = [fst kv, fmt2 a]" by blast
    moreover have "(fst kv, snd kv) \<in> set (kv # g)" by simp
    ultimately show ?thesis by blast
  next
    case False
    with Cons.prems have "x \<in> set rs" by simp
    from Cons.IH [OF this] show ?thesis by auto
  qed
qed

lemma observed_entry:
  "distinct (map fst g) \<Longrightarrow> (k, vs) \<in> set g \<Longrightarrow> observed g k = vs"
  by (simp add: observed_def)

lemma performance_structure:
  assumes "performance R data = Inr (hdr, out)"
  shows "\<exists>(perf_data :: groups) sorted.
           hdr = report_header
         \<and> out = number_rows 0 (map snd sorted)
         \<and> distinct (map fst perf_data)
         \<and> set (map fst perf_data) = set (position_values data)
         \<and> length perf_data \<le> length data - 1
         \<and> mset (map (\<lambda>kx. snd kx ! 0) sorted) = mset (map fst perf_data)
         \<and> successively (\<lambda>a b. \<not> float_lt (fst a) (fst b)) sorted
         \<and> list_all (report_row R data) sorted"
proof -
  from performance_Inr [OF assms] obtain headers rows pos_idx perf_idx perf_data result keyed
    where data: "data = headers # rows"
      and pos: "index_of ''position'' headers = Some pos_idx"
      and perf: "index_of ''performance'' headers = Some perf_idx"
      and grouped: "group_rows R pos_idx perf_idx rows [] = Inr perf_data"
      and averaged: "average_rows R perf_data = Inr result"
      and keyed: "sort_keys R result = Inr keyed"
      and hdr: "hdr = report_header"
      and out: "out = number_rows 0 (map snd (sort_desc keyed))"
    by blast
  have positions: "position_values data = map (\<lambda>r. r ! pos_idx) rows"
    by (simp add: position_values_def data pos)
  have mine: "group_values R data k = observations R pos_idx perf_idx rows k" for k
    by (simp add: group_values_def data pos perf)
  have dist: "distinct (map fst perf_data)"
    using group_rows_distinct [OF grouped] by simp
  have keys: "set (map fst perf_data) = set (position_values data)"
    using group_rows_keys [OF grouped] by (simp add: positions)
  have len: "length perf_data \<le> length data - 1"
    using group_rows_length [OF grouped] by (simp add: data)
  have nonempty: "list_all (\<lambda>kv. snd kv \<noteq> []) perf_data"
    using group_rows_nonempty [OF grouped] by simp
  have entry: "vs = group_values R data k \<and> vs \<noteq> []" if "(k, vs) \<in> set perf_data" for k vs
  proof -
    have "observed perf_data k = observations R pos_idx perf_idx rows k"
      using group_rows_observed [OF grouped, of k] by (simp add: observed_def)
    with observed_entry [OF dist that] have "vs = group_values R data k"
      by (simp add: mine)
    moreover from nonempty that have "vs \<noteq> []"
      by (auto simp: list_all_iff)
    ultimately show ?thesis by simp
  qed
  note shape = average_rows_shape [OF averaged]
  from sort_keys_shape [OF keyed]
  have snd_keyed: "map snd keyed = result"
    and key_of: "list_all (\<lambda>kx. 1 < length (snd kx) \<and> float_of_str R (snd kx ! 1) = Some (fst kx)) keyed"
    by simp_all
  define sorted where "sorted = sort_desc keyed"
  have perm: "mset sorted = mset keyed"
    by (simp add: sorted_def mset_sort_desc)
  then have same_set: "set sorted = set keyed"
    by (rule mset_eq_setD)
  have "mset (map (\<lambda>kx. snd kx ! 0) sorted) = mset (map (\<lambda>kx. snd kx ! 0) keyed)"
    using perm by (metis mset_map)
  also have "map (\<lambda>kx. snd kx ! 0) keyed = map (\<lambda>x. x ! 0) (map snd keyed)"
    by simp
  also have "\<dots> = map fst perf_data"
    by (simp only: snd_keyed list_all2_first_cells [OF shape])
  finally have firsts: "mset (map (\<lambda>kx. snd kx ! 0) sorted) = mset (map fst perf_data)" .
  have rows_ok: "list_all (report_row R data) sorted"
    unfolding list_all_iff
  proof
    fix kx assume "kx \<in> set sorted"
    then have mem: "kx \<in> set keyed" by (simp add: same_set)
    then have "snd kx \<in> set result" using snd_keyed by force
    from list_all2_row_origin [OF shape this] obtain k vs a
      where kv: "(k, vs) \<in> set perf_data" and a: "group_mean R vs = Inr a"
        and x: "snd kx = [k, fmt2 a]" by blast
    from key_of mem x have key: "float_of_str R (fmt2 a) = Some (fst kx)"
      by (auto simp: list_all_iff)
    from kv have "k \<in> set (map fst perf_data)" by force
    with keys entry [OF kv] a x key show "report_row R data kx"
      by (auto simp: report_row_def)
  qed
  have "hdr = report_header
      \<and> out = number_rows 0 (map snd sorted)
      \<and> distinct (map fst perf_data)
      \<and> set (map fst perf_data) = set (position_values data)
      \<and> length perf_data \<le> length data - 1
      \<and> mset (map (\<lambda>kx. snd kx ! 0) sorted) = mset (map fst perf_data)
      \<and> successively (\<lambda>a b. \<not> float_lt (fst a) (fst b)) sorted
      \<and> list_all (report_row R data) sorted"
    using hdr out dist keys len firsts rows_ok successively_sort_desc [of keyed]
    by (simp add: sorted_def)
  then show ?thesis by blast
qed

lemma valid_table_returns:
  assumes "valid_table R data" and "reads_back R"
  shows "\<exists>out. performance R data = Inr (report_header, out)"
proof -
  from assms(1) obtain headers rows pos_idx perf_idx
    where data: "data = headers # rows"
      and pos: "index_of ''position'' headers = Some pos_idx"
      and perf: "index_of ''performance'' headers = Some perf_idx"
      and rows: "list_all (\<lambda>r. pos_idx < length r \<and> perf_idx < length r
                              \<and> float_of_str R (r ! perf_idx) \<noteq> None) rows"
    by (auto simp: valid_table_def split: list.splits option.splits)
  from group_rows_total [OF rows] obtain perf_data
    where grouped: "group_rows R pos_idx perf_idx rows [] = Inr perf_data" by blast
  from group_rows_nonempty [OF grouped] have "list_all (\<lambda>kv. snd kv \<noteq> []) perf_data" by simp
  from average_rows_total [OF this] obtain result
    where averaged: "average_rows R perf_data = Inr result" by blast
  have "list_all (\<lambda>r. \<exists>k a. r = [k, fmt2 a]) result"
    using list_all2_row_origin [OF average_rows_shape [OF averaged]]
    by (fastforce simp: list_all_iff)
  from sort_keys_total [OF assms(2) this] obtain keyed
    where "sort_keys R result = Inr keyed" by blast
  with data pos perf grouped averaged show ?thesis
    by (simp add: performance_def)
qed

lemma second_cells_number_rows:
  "map (\<lambda>r. r ! Suc 0) (number_rows i rs) = map (\<lambda>x. x ! 0) rs"
  by (induction rs arbitrary: i) simp_all

text \<open>
  Claim C4. On a valid input table (and a runtime that reads its own format back)
  \<open>Report.performance\<close> returns a report whose rows carry, in their second cell, each
  value of the \<open>position\<close> column exactly once; there are as many rows as distinct values,
  and no more than data rows.
\<close>

theorem performance_one_row_per_position:
  assumes "valid_table R data" and "reads_back R"
  shows "\<exists>out. performance R data = Inr (report_header, out)
           \<and> distinct (map (\<lambda>r. r ! 1) out)
           \<and> set (map (\<lambda>r. r ! 1) out) = set (position_values data)
           \<and> length out = card (set (position_values data))
           \<and> length out \<le> length data - 1"
proof -
  from valid_table_returns [OF assms] obtain out
    where run: "performance R data = Inr (report_header, out)" by blast
  from performance_structure [OF run]
  obtain perf_data :: groups and sorted :: "(pyfloat \<times> row) list"
    where out: "out = number_rows 0 (map snd sorted)"
      and dist: "distinct (map fst perf_data)"
      and keys: "set (map fst perf_data) = set (position_values data)"
      and len: "length perf_data \<le> length data - 1"
      and firsts: "mset (map (\<lambda>kx. snd kx ! 0) sorted) = mset (map fst perf_data)"
    by blast
  have cells: "map (\<lambda>r. r ! 1) out = map (\<lambda>kx. snd kx ! 0) sorted"
    by (simp add: out second_cells_number_rows comp_def)
  have d: "distinct (map (\<lambda>r. r ! 1) out)"
    using mset_eq_imp_distinct_iff [OF firsts] dist by (simp only: cells)
  have s: "set (map (\<lambda>r. r ! 1) out) = set (position_values data)"
    using mset_eq_setD [OF firsts] keys by (simp only: cells)
  have "length out = length (map (\<lambda>r. r ! 1) out)" by simp
  also have "\<dots> = length (map fst perf_data)"
    using mset_eq_length [OF firsts] by (simp only: cells)
  finally have l: "length out = length perf_data" by simp
  have "card (set (position_values data)) = length (map fst perf_data)"
    using distinct_card [OF dist] by (simp only: keys)
  with run d s l len show ?thesis by auto
qed

subsection \<open>Decimal text\<close>

lemma is_digit_iff: "is_digit c \<longleftrightarrow> c \<in> set ''0123456789''"
  by (simp add: is_digit_def digit_table_def)

lemma is_digit_digit_char: "d < 10 \<Longrightarrow> is_digit (digit_char d)"
  unfolding is_digit_iff digit_char_def by (rule nth_mem) simp

lemma str_nat_digits: "list_all is_digit (str_nat n)"
proof (induction n rule: str_nat.induct)
  case (1 n)
  show ?case
  proof (cases "n < 10")
    case True
    then show ?thesis by (subst str_nat.simps) (simp add: is_digit_digit_char)
  next
    case False
    with "1.IH" show ?thesis by (subst str_nat.simps) (simp add: is_digit_digit_char)
  qed
qed

lemma str_nat_nonempty: "str_nat n \<noteq> []"
  by (subst str_nat.simps) simp

lemma unsigned_fixed2_two_decimals: "unsigned_fixed2 (two_decimals n)"
  by (simp add: unsigned_fixed2_def two_decimals_def str_nat_digits str_nat_nonempty
      is_digit_digit_char)

lemma fixed_point2_fmt2: "is_finite a \<Longrightarrow> fixed_point2 (fmt2 a)"
  by (cases a) (auto simp: fixed_point2_def unsigned_fixed2_two_decimals)

subsection \<open>Reading back what the format writes\<close>

lemma digit_not_space: "is_digit c \<Longrightarrow> \<not> is_space c"
  by (auto simp: is_digit_iff is_space_def)

lemma digit_not_special:
  "is_digit c \<Longrightarrow> c \<noteq> CHR ''_'' \<and> c \<noteq> CHR ''-'' \<and> c \<noteq> CHR ''+'' \<and> c \<noteq> CHR ''.''
     \<and> c \<noteq> CHR ''i'' \<and> c \<noteq> CHR ''n'' \<and> fold_case c = c"
  by (auto simp: is_digit_iff fold_case_def)

lemma strip_unchanged:
  "s \<noteq> [] \<Longrightarrow> \<not> is_space (hd s) \<Longrightarrow> \<not> is_space (last s) \<Longrightarrow> strip s = s"
proof -
  assume s: "s \<noteq> []" and h: "\<not> is_space (hd s)" and l: "\<not> is_space (last s)"
  from s h have "dropWhile is_space s = s" by (cases s) simp_all
  moreover from s l have "dropWhile is_space (rev s) = rev s"
    by (cases "rev s") (simp_all add: last_rev [symmetric] del: last_rev)
  ultimately show ?thesis by (simp add: strip_def)
qed

lemma underscores_ok_without:
  "CHR ''_'' \<notin> set s \<Longrightarrow> p \<noteq> CHR ''_'' \<Longrightarrow> underscores_ok p s"
  by (induction s arbitrary: p) auto

lemma parse_decimal_fixed:
  assumes "list_all is_digit ds" and "ds \<noteq> []" and "is_digit d1" and "is_digit d2"
  shows "parse_decimal (ds @ CHR ''.'' # [d1, d2]) = Some (digits_val (ds @ [d1, d2]), - 2)"
proof -
  have dot: "\<not> is_digit CHR ''.''" by (simp add: is_digit_iff)
  from assms(1) have all: "\<And>x. x \<in> set ds \<Longrightarrow> is_digit x" by (simp add: list_all_iff)
  have t: "takeWhile is_digit (ds @ CHR ''.'' # [d1, d2]) = ds"
    using all dot by (simp add: takeWhile_append2)
  have d: "dropWhile is_digit (ds @ CHR ''.'' # [d1, d2]) = CHR ''.'' # [d1, d2]"
    using all dot by (simp add: dropWhile_append2)
  show ?thesis
    using assms(2-4) by (simp add: parse_decimal_def t d parse_parts_def)
qed

lemma float_of_ascii_two_decimals:
  "float_of_ascii ((if s then ''-'' else []) @ two_decimals n) \<noteq> None"
proof -
  define ds where "ds = str_nat (n div 100)"
  define d1 where "d1 = digit_char (n mod 100 div 10)"
  define d2 where "d2 = digit_char (n mod 10)"
  define t where "t = ds @ CHR ''.'' # [d1, d2]"
  have ds: "list_all is_digit ds" "ds \<noteq> []"
    by (simp_all add: ds_def str_nat_digits str_nat_nonempty)
  have d1: "is_digit d1" and d2: "is_digit d2"
    by (simp_all add: d1_def d2_def is_digit_digit_char)
  have two: "two_decimals n = t"
    by (simp add: two_decimals_def t_def ds_def d1_def d2_def)
  from ds obtain c cs where c: "ds = c # cs" "is_digit c" by (cases ds) simp_all
  have chars: "set t \<subseteq> {x. is_digit x} \<union> {CHR ''.''}"
    using ds(1) d1 d2 by (auto simp: t_def list_all_iff)
  have no_us: "CHR ''_'' \<notin> set ((if s then ''-'' else []) @ t)"
    using chars digit_not_special by auto
  have "strip ((if s then ''-'' else []) @ t) = (if s then ''-'' else []) @ t"
  proof (rule strip_unchanged)
    show "(if s then ''-'' else []) @ t \<noteq> []" by (simp add: t_def)
    show "\<not> is_space (hd ((if s then ''-'' else []) @ t))"
      using digit_not_space [OF c(2)] by (simp add: t_def c(1) is_space_def)
    show "\<not> is_space (last ((if s then ''-'' else []) @ t))"
      using digit_not_space [OF d2] by (simp add: t_def)
  qed
  moreover have "underscores_ok (CHR 0x00) ((if s then ''-'' else []) @ t)"
    by (rule underscores_ok_without [OF no_us]) simp
  moreover have "filter (\<lambda>c. c \<noteq> CHR ''_'') ((if s then ''-'' else []) @ t) = (if s then ''-'' else []) @ t"
    using no_us by (auto simp: filter_id_conv)
  moreover have "split_sign ((if s then ''-'' else []) @ t) = (s, t)"
    using digit_not_special [OF c(2)] by (simp add: t_def c(1))
  moreover have "map fold_case t \<noteq> ''inf'' \<and> map fold_case t \<noteq> ''infinity'' \<and> map fold_case t \<noteq> ''nan''"
    using digit_not_special [OF c(2)] by (simp add: t_def c(1))
  moreover have "parse_decimal t = Some (digits_val (ds @ [d1, d2]), - 2)"
    unfolding t_def by (rule parse_decimal_fixed [OF ds d1 d2])
  ultimately show ?thesis
    by (simp add: two float_of_ascii_def float_of_stripped_def float_of_word_def)
qed

lemma float_of_ascii_fmt2: "float_of_ascii (fmt2 a) \<noteq> None"
proof (cases a)
  case (Finite s m e)
  then show ?thesis using float_of_ascii_two_decimals by simp
next
  case (Infinity s)
  then show ?thesis
    by (simp add: float_of_ascii_def float_of_stripped_def float_of_word_def strip_def
        is_space_def fold_case_def is_digit_iff)
next
  case NaN
  then show ?thesis
    by (simp add: float_of_ascii_def float_of_stripped_def float_of_word_def strip_def
        is_space_def fold_case_def is_digit_iff)
qed

lemma reads_back_cpython311: "reads_back cpython311"
  by (simp add: reads_back_def cpython311_def float_of_ascii_fmt2)

lemma reads_back_cpython312: "reads_back cpython312"
  by (simp add: reads_back_def cpython312_def float_of_ascii_fmt2)

subsection \<open>The rows of the report\<close>

lemma in_number_rows:
  "r \<in> set (number_rows i xs) \<Longrightarrow> \<exists>n x. x \<in> set xs \<and> r = n # x"
proof (induction xs arbitrary: i)
  case Nil
  then show ?case by simp
next
  case (Cons x xs)
  from Cons.prems have "r = str_nat (i + 1) # x \<or> r \<in> set (number_rows (i + 1) xs)"
    by simp
  then show ?case
  proof
    assume "r = str_nat (i + 1) # x"
    then show ?thesis by auto
  next
    assume "r \<in> set (number_rows (i + 1) xs)"
    from Cons.IH [OF this] show ?thesis by auto
  qed
qed

text \<open>
  Claim C3, as amended. In every row of a report that \<open>Report.performance\<close> returns, the
  second cell is a position of the input and the third cell is the mean
  \<open>sum(perf) / len(perf)\<close> of the parsed performance values of the rows of that position,
  formatted with \<open>.2f\<close>; when that mean is finite, the cell is in fixed-point notation
  with exactly two digits after the point.
\<close>

theorem performance_cell_is_mean:
  assumes "performance R data = Inr (hdr, out)" and "r \<in> set out"
  shows "\<exists>a. r ! 1 \<in> set (position_values data)
            \<and> group_mean R (group_values R data (r ! 1)) = Inr a
            \<and> r ! 2 = fmt2 a
            \<and> (is_finite a \<longrightarrow> fixed_point2 (r ! 2))"
proof -
  from performance_structure [OF assms(1)]
  obtain sorted :: "(pyfloat \<times> row) list"
    where out: "out = number_rows 0 (map snd sorted)"
      and rows: "list_all (report_row R data) sorted"
    by blast
  from in_number_rows [OF assms(2) [unfolded out]] obtain n kx
    where kx: "kx \<in> set sorted" and r: "r = n # snd kx" by auto
  from rows kx have "report_row R data kx" by (simp add: list_all_iff)
  then obtain k a where "k \<in> set (position_values data)"
    "group_mean R (group_values R data k) = Inr a" "snd kx = [k, fmt2 a]"
    by (auto simp: report_row_def)
  then show ?thesis
    using fixed_point2_fmt2 [of a] by (auto simp: r)
qed

text \<open>
  Claim C1, as amended. The rows of a report that \<open>Report.performance\<close> returns are in
  descending order of the number that \<open>float\<close> reads from their average cell, the mean
  rounded to two decimals: when no cell reads as a NaN, that number in a row is greater
  than or equal to that in the next row.
\<close>

theorem performance_sorted_by_cell:
  assumes "performance R data = Inr (hdr, out)"
    and "Suc i < length out"
    and "\<forall>r \<in> set out. float_of_str R (r ! 2) \<noteq> Some NaN"
  shows "\<exists>k1 k2. float_of_str R (out ! i ! 2) = Some k1
              \<and> float_of_str R (out ! Suc i ! 2) = Some k2
              \<and> float_le k2 k1"
proof -
  from performance_structure [OF assms(1)]
  obtain sorted :: "(pyfloat \<times> row) list"
    where out: "out = number_rows 0 (map snd sorted)"
      and ordered: "successively (\<lambda>a b. \<not> float_lt (fst a) (fst b)) sorted"
      and rows: "list_all (report_row R data) sorted"
    by blast
  have len: "length out = length sorted"
    by (simp add: out length_number_rows)
  have cell: "float_of_str R (out ! j ! 2) = Some (fst (sorted ! j))" if "j < length sorted" for j
  proof -
    from that rows have "report_row R data (sorted ! j)" by (simp add: list_all_length)
    then obtain k a where "snd (sorted ! j) = [k, fmt2 a]"
      "float_of_str R (fmt2 a) = Some (fst (sorted ! j))"
      by (auto simp: report_row_def)
    with that show ?thesis by (simp add: out nth_number_rows)
  qed
  from assms(2) have i: "i < length sorted" and j: "Suc i < length sorted"
    by (simp_all add: len)
  from successively_nth [OF ordered j]
  have "\<not> float_lt (fst (sorted ! i)) (fst (sorted ! Suc i))" .
  moreover from assms(3) cell [OF i] i have "fst (sorted ! i) \<noteq> NaN"
    by (metis len nth_mem)
  moreover from assms(3) cell [OF j] assms(2) have "fst (sorted ! Suc i) \<noteq> NaN"
    by (metis nth_mem)
  ultimately have "float_le (fst (sorted ! Suc i)) (fst (sorted ! i))"
    by (simp add: float_le_total)
  with cell [OF i] cell [OF j] show ?thesis by blast
qed


subsection \<open>Evaluating the examples\<close>

lemmas round_eval = round_ratio_def round_at_def pack_def div_half_even_def round_half_even_def
  floor_log2_def floor_log2_near_def bit_length.simps float_zero_def scaled_def round_sum_def

lemmas parse_eval = float_of_ascii_def float_of_stripped_def float_of_word_def strip_def
  is_space_def fold_case_def parse_decimal_def parse_parts_def is_digit_def digit_table_def
  digits_val_def digit_val_def

lemmas fmt_eval = two_decimals_def str_nat.simps digit_char_def

lemma float_of_ascii_samples:
  "float_of_ascii ''4.8'' = Some (Finite False 5404319552844595 (- 50))"
  "float_of_ascii ''5.0'' = Some (Finite False 5629499534213120 (- 50))"
  "float_of_ascii ''4.4'' = Some (Finite False 4953959590107546 (- 50))"
  "float_of_ascii ''4.6'' = Some (Finite False 5179139571476070 (- 50))"
  "float_of_ascii ''4.90'' = Some (Finite False 5516909543528858 (- 50))"
  "float_of_ascii ''4.50'' = Some (Finite False 5066549580791808 (- 50))"
  "float_of_ascii ''4.5'' = Some (Finite False 5066549580791808 (- 50))"
  "float_of_ascii ''4.50390625'' = Some (Finite False 5070947627302912 (- 50))"
  "float_of_ascii ''inf'' = Some (Infinity False)"
  by (simp_all add: parse_eval round_eval)

lemma fmt2_samples:
  "fmt2 (Finite False 5516909543528858 (- 50)) = ''4.90''"
  "fmt2 (Finite False 5066549580791808 (- 50)) = ''4.50''"
  "fmt2 (Finite False 5070947627302912 (- 50)) = ''4.50''"
  by (simp_all add: fmt_eval round_eval)

lemma float_lt_samples:
  "float_lt (Finite False 5066549580791808 (- 50)) (Finite False 5516909543528858 (- 50))"
  "\<not> float_lt (Finite False 5516909543528858 (- 50)) (Finite False 5066549580791808 (- 50))"
  "\<not> float_lt (Finite False 5066549580791808 (- 50)) (Finite False 5066549580791808 (- 50))"
  "float_lt (Finite False 5066549580791808 (- 50)) (Finite False 5070947627302912 (- 50))"
  by (simp_all add: scaled_def)

lemma float_of_str_cpython:
  "float_of_str cpython311 = float_of_ascii" "float_of_str cpython312 = float_of_ascii"
  by (simp_all add: cpython311_def cpython312_def)

lemma float_of_nat_small:
  "float_of_nat (Suc 0) = Finite False 4503599627370496 (- 52)"
  "float_of_nat (Suc (Suc 0)) = Finite False 4503599627370496 (- 51)"
  by (simp_all add: float_of_nat_def round_eval)

lemma sum_plain_samples:
  "sum_plain [Finite False 5404319552844595 (- 50), Finite False 5629499534213120 (- 50)]
     = Finite False 5516909543528858 (- 49)"
  "sum_plain [Finite False 4953959590107546 (- 50), Finite False 5179139571476070 (- 50)]
     = Finite False 5066549580791808 (- 49)"
  "sum_plain [Finite False 5066549580791808 (- 50)] = Finite False 5066549580791808 (- 50)"
  "sum_plain [Finite False 5070947627302912 (- 50)] = Finite False 5070947627302912 (- 50)"
  "sum_plain [Infinity False] = Infinity False"
  by (simp_all add: sum_plain_def round_eval)

lemma sum_compensated_samples:
  "sum_compensated [Finite False 5404319552844595 (- 50), Finite False 5629499534213120 (- 50)]
     = Finite False 5516909543528858 (- 49)"
  "sum_compensated [Finite False 4953959590107546 (- 50), Finite False 5179139571476070 (- 50)]
     = Finite False 5066549580791808 (- 49)"
  "sum_compensated [Finite False 5066549580791808 (- 50)] = Finite False 5066549580791808 (- 50)"
  "sum_compensated [Finite False 5070947627302912 (- 50)] = Finite False 5070947627302912 (- 50)"
  "sum_compensated [Infinity False] = Infinity False"
  by (simp_all add: compensate_def float_le_def float_sub_def round_eval)

lemma float_div_samples:
  "float_div (Finite False 5516909543528858 (- 49)) (Finite False 4503599627370496 (- 51))
     = Inr (Finite False 5516909543528858 (- 50))"
  "float_div (Finite False 5066549580791808 (- 49)) (Finite False 4503599627370496 (- 51))
     = Inr (Finite False 5066549580791808 (- 50))"
  "float_div (Finite False 5066549580791808 (- 50)) (Finite False 4503599627370496 (- 52))
     = Inr (Finite False 5066549580791808 (- 50))"
  "float_div (Finite False 5070947627302912 (- 50)) (Finite False 4503599627370496 (- 52))
     = Inr (Finite False 5070947627302912 (- 50))"
  "float_div (Infinity False) (Finite False 4503599627370496 (- 52)) = Inr (Infinity False)"
  by (simp_all add: round_eval)

lemma group_mean_samples:
  assumes "sum_floats R = sum_plain \<or> sum_floats R = sum_compensated"
  shows "group_mean R [Finite False 5404319552844595 (- 50), Finite False 5629499534213120 (- 50)]
           = Inr (Finite False 5516909543528858 (- 50))"
    and "group_mean R [Finite False 4953959590107546 (- 50), Finite False 5179139571476070 (- 50)]
           = Inr (Finite False 5066549580791808 (- 50))"
    and "group_mean R [Finite False 5066549580791808 (- 50)]
           = Inr (Finite False 5066549580791808 (- 50))"
    and "group_mean R [Finite False 5070947627302912 (- 50)]
           = Inr (Finite False 5070947627302912 (- 50))"
    and "group_mean R [Infinity False] = Inr (Infinity False)"
  using assms
  by (auto simp: group_mean_def sum_plain_samples sum_compensated_samples float_of_nat_small
      float_div_samples simp del: sum_compensated.simps float_div.simps)

lemma cpython_sums:
  "sum_floats cpython311 = sum_plain \<or> sum_floats cpython311 = sum_compensated"
  "sum_floats cpython312 = sum_plain \<or> sum_floats cpython312 = sum_compensated"
  by (simp_all add: cpython311_def cpython312_def)

lemma index_of_sample_header:
  "index_of ''position'' [''name'', ''position'', ''performance''] = Some 1"
  "index_of ''performance'' [''name'', ''position'', ''performance''] = Some 2"
  "index_of ''position'' [''position'', ''performance''] = Some 0"
  "index_of ''performance'' [''position'', ''performance''] = Some 1"
  by simp_all

lemma str_nat_small: "str_nat (Suc 0) = ''1''" "str_nat (Suc (Suc 0)) = ''2''"
  by (simp_all add: str_nat.simps digit_char_def)

lemma sample_report:
  assumes "float_of_str R = float_of_ascii"
    and "sum_floats R = sum_plain \<or> sum_floats R = sum_compensated"
  shows "performance R sample_data
           = Inr (report_header, [[''1'', ''Backend'', ''4.90''], [''2'', ''Frontend'', ''4.50'']])"
  by (simp add: performance_def sample_data_def index_of_sample_header cell_at_def assms(1)
      float_of_ascii_samples group_mean_samples [OF assms(2)] fmt2_samples float_lt_samples
      sort_desc_def str_nat_small del: fmt2.simps float_lt.simps)

lemma close_means_report:
  assumes "float_of_str R = float_of_ascii"
    and "sum_floats R = sum_plain \<or> sum_floats R = sum_compensated"
  shows "performance R close_means
           = Inr (report_header, [[''1'', ''A'', ''4.50''], [''2'', ''B'', ''4.50'']])"
  by (simp add: performance_def close_means_def index_of_sample_header cell_at_def assms(1)
      float_of_ascii_samples group_mean_samples [OF assms(2)] fmt2_samples float_lt_samples
      sort_desc_def str_nat_small del: fmt2.simps float_lt.simps)

lemma infinite_cell_report:
  assumes "float_of_str R = float_of_ascii"
    and "sum_floats R = sum_plain \<or> sum_floats R = sum_compensated"
  shows "performance R infinite_cell = Inr (report_header, [[''1'', ''A'', ''inf'']])"
  by (simp add: performance_def infinite_cell_def index_of_sample_header cell_at_def assms(1)
      float_of_ascii_samples group_mean_samples [OF assms(2)] sort_desc_def str_nat_small)

lemma valid_examples:
  "valid_table cpython311 sample_data"
  "valid_table cpython311 close_means"
  "valid_table cpython311 infinite_cell"
  by (simp_all add: valid_table_def sample_data_def close_means_def infinite_cell_def
      index_of_sample_header float_of_str_cpython float_of_ascii_samples)

lemma group_values_examples:
  "group_values cpython311 sample_data ''Backend''
     = [Finite False 5404319552844595 (- 50), Finite False 5629499534213120 (- 50)]"
  "group_values cpython311 close_means ''A'' = [Finite False 5066549580791808 (- 50)]"
  "group_values cpython311 close_means ''B'' = [Finite False 5070947627302912 (- 50)]"
  by (simp_all add: group_values_def sample_data_def close_means_def index_of_sample_header
      observations_def List.map_filter_simps float_of_str_cpython float_of_ascii_samples)

text \<open>
  Claim C2. On the table of the test, \<open>Report.performance\<close> returns the header
  \<open>[numero sign, position, performance]\<close> and the rows \<open>[1, Backend, 4.90]\<close> and
  \<open>[2, Frontend, 4.50]\<close> in this order, with the summation of CPython up to 3.11 and
  with that of CPython 3.12.
\<close>

theorem sample_performance_report:
  "performance cpython311 sample_data
     = Inr ([[CHR 0xE2, CHR 0x84, CHR 0x96], ''position'', ''performance''],
            [[''1'', ''Backend'', ''4.90''], [''2'', ''Frontend'', ''4.50'']])
   \<and> performance cpython312 sample_data
     = Inr ([[CHR 0xE2, CHR 0x84, CHR 0x96], ''position'', ''performance''],
            [[''1'', ''Backend'', ''4.90''], [''2'', ''Frontend'', ''4.50'']])"
  using sample_report [OF float_of_str_cpython(1) cpython_sums(1)]
    sample_report [OF float_of_str_cpython(2) cpython_sums(2)]
  by (simp add: report_header_def)

theorem performance_one_row_per_position_witness:
  "valid_table cpython311 sample_data \<and> reads_back cpython311
   \<and> (\<exists>out. performance cpython311 sample_data = Inr (report_header, out)
          \<and> distinct (map (\<lambda>r. r ! 1) out)
          \<and> set (map (\<lambda>r. r ! 1) out) = set (position_values sample_data)
          \<and> length out = card (set (position_values sample_data))
          \<and> length out \<le> length sample_data - 1)"
  using performance_one_row_per_position [OF valid_examples(1) reads_back_cpython311]
    valid_examples(1) reads_back_cpython311
  by blast

text \<open>
  Claim C3 as stated fails on a table whose performance cell is the text \<open>inf\<close>: the
  table is valid, and the average cell of the report is \<open>inf\<close>, which is not in
  fixed-point notation.
\<close>

theorem infinite_cell_not_fixed_point:
  "valid_table cpython311 infinite_cell
   \<and> performance cpython311 infinite_cell = Inr (report_header, [[''1'', ''A'', ''inf'']])
   \<and> \<not> fixed_point2 ''inf''"
  using infinite_cell_report [OF float_of_str_cpython(1) cpython_sums(1)] valid_examples(3)
  by (simp add: fixed_point2_def unsigned_fixed2_def is_digit_def digit_table_def)

theorem performance_cell_is_mean_witness:
  "group_mean cpython311 (group_values cpython311 sample_data ''Backend'')
     = Inr (Finite False 5516909543528858 (- 50))
   \<and> fmt2 (Finite False 5516909543528858 (- 50)) = ''4.90''
   \<and> fixed_point2 ''4.90''"
proof -
  have mean: "group_mean cpython311 (group_values cpython311 sample_data ''Backend'')
      = Inr (Finite False 5516909543528858 (- 50))"
    by (simp only: group_values_examples group_mean_samples [OF cpython_sums(1)])
  from performance_cell_is_mean
    [OF sample_report [OF float_of_str_cpython(1) cpython_sums(1)],
      of "[''1'', ''Backend'', ''4.90'']"]
  obtain a where "group_mean cpython311 (group_values cpython311 sample_data ''Backend'') = Inr a"
    and "''4.90'' = fmt2 a" and "is_finite a \<longrightarrow> fixed_point2 ''4.90''"
    by auto
  with mean show ?thesis by auto
qed

text \<open>
  Claim C1 as stated fails on a table of two groups whose means \<open>4.5\<close> and \<open>4.50390625\<close>
  are both written \<open>4.50\<close>: the table is valid, the report keeps the rows in the order of
  the input, and the mean of the first row's group is less than that of the second.
\<close>

theorem close_means_not_sorted_by_mean:
  "valid_table cpython311 close_means
   \<and> performance cpython311 close_means
       = Inr (report_header, [[''1'', ''A'', ''4.50''], [''2'', ''B'', ''4.50'']])
   \<and> group_mean cpython311 (group_values cpython311 close_means ''A'')
       = Inr (Finite False 5066549580791808 (- 50))
   \<and> group_mean cpython311 (group_values cpython311 close_means ''B'')
       = Inr (Finite False 5070947627302912 (- 50))
   \<and> float_lt (Finite False 5066549580791808 (- 50)) (Finite False 5070947627302912 (- 50))
   \<and> \<not> float_le (Finite False 5070947627302912 (- 50)) (Finite False 5066549580791808 (- 50))"
  using close_means_report [OF float_of_str_cpython(1) cpython_sums(1)] valid_examples(2)
  by (simp add: group_values_examples group_mean_samples [OF cpython_sums(1)] float_le_def
      scaled_def)

theorem performance_sorted_by_cell_witness:
  "float_of_str cpython311 ''4.90'' = Some (Finite False 5516909543528858 (- 50))
   \<and> float_of_str cpython311 ''4.50'' = Some (Finite False 5066549580791808 (- 50))
   \<and> float_le (Finite False 5066549580791808 (- 50)) (Finite False 5516909543528858 (- 50))"
  using performance_sorted_by_cell
    [OF sample_report [OF float_of_str_cpython(1) cpython_sums(1)], of 0]
  by (simp add: float_of_str_cpython float_of_ascii_samples)


end
